theory Spec2Isabelle
  imports Main "HOL-Library.Sublist" "HOL-Library.Multiset"
begin

section \<open>JavaScript string primitives used by the plugin loader\<close>

text \<open>
  The loader in \<^verbatim>\<open>.reaction/run/loadPlugins.mjs\<close> works on JavaScript strings.
  Strings are modelled as \<^typ>\<open>string\<close>; the four string operations the loader uses are
  written out below with the behaviour JavaScript gives them.
\<close>

text \<open>\<^verbatim>\<open>s.split(sep)[0]\<close> for a non-empty separator: the part of \<open>s\<close> before the first
  occurrence of \<open>sep\<close>, the whole of \<open>s\<close> when \<open>sep\<close> does not occur.\<close>

fun split_first :: "string \<Rightarrow> string \<Rightarrow> string" where
  "split_first sep [] = []"
| "split_first sep (c # cs) = (if prefix sep (c # cs) then [] else c # split_first sep cs)"

text \<open>\<^verbatim>\<open>s.replace(pat, rep)\<close> with a string pattern: only the FIRST occurrence of
  \<open>pat\<close> is replaced (the loader's replacement text is empty, so the \<^verbatim>\<open>$\<close> patterns of
  the replacement do not arise).\<close>

fun replace_first :: "string \<Rightarrow> string \<Rightarrow> string \<Rightarrow> string" where
  "replace_first pat rep [] = (if pat = [] then rep else [])"
| "replace_first pat rep (c # cs) =
     (if prefix pat (c # cs) then rep @ drop (length pat) (c # cs)
      else c # replace_first pat rep cs)"

text \<open>\<^verbatim>\<open>s.replace(/\\/g, '/')\<close>: every backslash becomes a forward slash.\<close>

definition backslash :: char where
  "backslash = CHR 0x5C"

definition forward_slashes :: "string \<Rightarrow> string" where
  "forward_slashes s = map (\<lambda>c. if c = backslash then CHR ''/'' else c) s"

text \<open>\<^verbatim>\<open>d.charAt(0) === '.'\<close>: false on the empty string, whose \<^verbatim>\<open>charAt(0)\<close> is empty.\<close>

definition starts_with_dot :: "string \<Rightarrow> bool" where
  "starts_with_dot d = (case d of [] \<Rightarrow> False | c # _ \<Rightarrow> c = CHR ''.'')"


section \<open>The environment and the observable world\<close>

text \<open>
  Everything the loader reads but does not own is a field of the environment:
  the working directory (\<^verbatim>\<open>path.resolve('.')\<close>), the helpers \<^verbatim>\<open>getDirectories\<close> and
  \<^verbatim>\<open>exists\<close> of \<^verbatim>\<open>./fs\<close>, the \<^verbatim>\<open>disabledPlugins\<close> list of \<^verbatim>\<open>pluginConfig\<close>, Node's
  \<^verbatim>\<open>path.relative\<close>, and the two sources of failure: whether a shell command run by
  \<^verbatim>\<open>childProcess.execSync\<close> fails (a function of the command line), and whether a call
  of \<^verbatim>\<open>fs.writeFileSync\<close> or \<^verbatim>\<open>fs.appendFileSync\<close> throws (a function of everything that
  has happened so far and of the file, so that a disk can fill up in the middle of a run).
  The plugin tree itself is read-only during a run.
\<close>

datatype event =
    LogInfo string
  | LogError string
  | ExecSync string
  | WriteFile string string
  | AppendFile string string

datatype fs_outcome =
    Written
  | Throws "string option"

record env =
  cwd :: string
  getDirectories :: "string \<Rightarrow> string list"
  exists :: "string \<Rightarrow> bool"
  disabledPlugins :: "string list"
  path_relative :: "string \<Rightarrow> string \<Rightarrow> string"
  install_fails :: "string \<Rightarrow> bool"
  write_fault :: "event list \<Rightarrow> string \<Rightarrow> fs_outcome"

text \<open>
  What a run can change: the contents of files, and the sequence of things it did
  (log lines, shell commands, write attempts), in order.
\<close>

record world =
  files :: "string \<Rightarrow> string option"
  trace :: "event list"

text \<open>A call either returns a value, or ends the process through \<^verbatim>\<open>process.exit(code)\<close>.\<close>

datatype 'a result =
    Return 'a world
  | Exited nat world

definition Log_info :: "string \<Rightarrow> world \<Rightarrow> world" where
  "Log_info msg w = w\<lparr>trace := trace w @ [LogInfo msg]\<rparr>"

definition Log_error :: "string \<Rightarrow> world \<Rightarrow> world" where
  "Log_error msg w = w\<lparr>trace := trace w @ [LogError msg]\<rparr>"

text \<open>
  \<^verbatim>\<open>fs.writeFileSync(file, data)\<close> replaces the content of the file;
  \<^verbatim>\<open>fs.appendFileSync(file, data)\<close> adds to it (creating the file when it is missing).
  \<open>Inl\<close> is a thrown error: the file is then left as the fault says, anything from
  untouched to truncated.
\<close>

definition writeFileSync :: "env \<Rightarrow> string \<Rightarrow> string \<Rightarrow> world \<Rightarrow> world + world" where
  "writeFileSync e file data w =
     (case write_fault e (trace w) file of
        Written \<Rightarrow>
          Inr \<lparr>files = (files w)(file \<mapsto> data), trace = trace w @ [WriteFile file data]\<rparr>
      | Throws left \<Rightarrow>
          Inl \<lparr>files = (files w)(file := left), trace = trace w @ [WriteFile file data]\<rparr>)"

definition appendFileSync :: "env \<Rightarrow> string \<Rightarrow> string \<Rightarrow> world \<Rightarrow> world + world" where
  "appendFileSync e file data w =
     (case write_fault e (trace w) file of
        Written \<Rightarrow>
          Inr \<lparr>files = (files w)(file \<mapsto> (case files w file of None \<Rightarrow> data | Some old \<Rightarrow> old @ data)),
               trace = trace w @ [AppendFile file data]\<rparr>
      | Throws left \<Rightarrow>
          Inl \<lparr>files = (files w)(file := left), trace = trace w @ [AppendFile file data]\<rparr>)"


section \<open>generateImportsFile\<close>

definition importFileMessage :: string where
  "importFileMessage =
     [CHR 0x0A] @
     ''/**'' @ [CHR 0x0A] @
     '' * ***** DO NOT EDIT THIS FILE MANUALLY *****'' @ [CHR 0x0A] @
     '' * This file is generated automatically by the Reaction'' @ [CHR 0x0A] @
     '' * plugin loader and will be reset at each startup.'' @ [CHR 0x0A] @
     '' */'' @ [CHR 0x0A]"

text \<open>The statement written for one import path: \<^verbatim>\<open>import '<path>';\<close> and a newline.\<close>

definition import_line :: "string \<Rightarrow> string" where
  "import_line importPath = ''import '' @ [CHR 0x27] @ importPath @ [CHR 0x27] @ '';'' @ [CHR 0x0A]"

text \<open>The body of \<^verbatim>\<open>imports.forEach\<close>: append one statement, or log and exit.\<close>

fun forEach_import :: "env \<Rightarrow> string \<Rightarrow> string list \<Rightarrow> world \<Rightarrow> unit result" where
  "forEach_import e file [] w = Return () w"
| "forEach_import e file (importPath # rest) w =
     (case appendFileSync e file (import_line importPath) w of
        Inl w1 \<Rightarrow> Exited 1 (Log_error (''Failed to write to plugins file at '' @ importPath) w1)
      | Inr w1 \<Rightarrow> forEach_import e file rest w1)"

definition generateImportsFile :: "env \<Rightarrow> string \<Rightarrow> string list \<Rightarrow> world \<Rightarrow> unit result" where
  "generateImportsFile e file importPaths w =
     (case writeFileSync e file [] w of
        Inl w1 \<Rightarrow> Exited 1 (Log_error (''Failed to reset plugins file at '' @ file) w1)
      | Inr w1 \<Rightarrow>
          (case writeFileSync e file importFileMessage w1 of
             Inl w2 \<Rightarrow> Exited 1 (Log_error (''Failed to reset plugins file at '' @ file) w2)
           | Inr w2 \<Rightarrow> forEach_import e file importPaths w2))"


section \<open>getImportPaths\<close>

record import_paths =
  client :: "string list"
  server :: "string list"
  registry :: "string list"

definition appRoot :: "env \<Rightarrow> string" where
  "appRoot e = split_first ''.meteor'' (cwd e)"

definition getImportPath :: "env \<Rightarrow> string \<Rightarrow> string" where
  "getImportPath e pluginFile = forward_slashes (''/'' @ path_relative e (appRoot e) pluginFile)"

text \<open>\<^verbatim>\<open>_.reject(getDirectories(baseDirPath), ...)\<close>: the directories that are neither
  hidden nor disabled, in the order of the listing.\<close>

definition rejected :: "env \<Rightarrow> string \<Rightarrow> bool" where
  "rejected e d = (starts_with_dot d \<or> d \<in> set (disabledPlugins e))"

definition pluginDirs :: "env \<Rightarrow> string \<Rightarrow> string list" where
  "pluginDirs e baseDirPath = filter (\<lambda>d. \<not> rejected e d) (getDirectories e baseDirPath)"

definition install_command :: "string \<Rightarrow> string \<Rightarrow> string" where
  "install_command baseDirPath plugin = ''cd '' @ baseDirPath @ plugin @ '' && meteor npm i''"

text \<open>The body of \<^verbatim>\<open>pluginDirs.forEach\<close> for one plugin: the three pushes, then the
  install, which ends the process when the command fails.\<close>

definition plugin_body :: "env \<Rightarrow> string \<Rightarrow> string \<Rightarrow> import_paths \<Rightarrow> world \<Rightarrow> import_paths result" where
  "plugin_body e baseDirPath plugin acc w =
     (let clientImport = baseDirPath @ plugin @ ''/client/index.js'';
          serverImport = baseDirPath @ plugin @ ''/server/index.js'';
          registryImport = baseDirPath @ plugin @ ''/register.js'';
          packageDotJson = baseDirPath @ plugin @ ''/package.json'';
          acc1 = (if exists e clientImport
                  then acc\<lparr>client := client acc @ [getImportPath e (replace_first ''/index.js'' [] clientImport)]\<rparr>
                  else acc);
          acc2 = (if exists e serverImport
                  then acc1\<lparr>server := server acc1 @ [getImportPath e (replace_first ''/index.js'' [] serverImport)]\<rparr>
                  else acc1);
          acc3 = (if exists e registryImport
                  then acc2\<lparr>registry := registry acc2 @ [getImportPath e registryImport]\<rparr>
                  else acc2)
      in if exists e packageDotJson
         then (let w1 = Log_info (''Installing dependencies for '' @ plugin @ ''...'' @ [CHR 0x0A]) w;
                   w2 = w1\<lparr>trace := trace w1 @ [ExecSync (install_command baseDirPath plugin)]\<rparr>
               in if install_fails e (install_command baseDirPath plugin)
                  then Exited 1 (Log_error (''Failed to install npm dependencies for plugin: '' @ plugin) w2)
                  else Return acc3 w2)
         else Return acc3 w)"

fun forEach_plugin :: "env \<Rightarrow> string \<Rightarrow> string list \<Rightarrow> import_paths \<Rightarrow> world \<Rightarrow> import_paths result" where
  "forEach_plugin e baseDirPath [] acc w = Return acc w"
| "forEach_plugin e baseDirPath (plugin # rest) acc w =
     (case plugin_body e baseDirPath plugin acc w of
        Exited code w1 \<Rightarrow> Exited code w1
      | Return acc1 w1 \<Rightarrow> forEach_plugin e baseDirPath rest acc1 w1)"

definition getImportPaths :: "env \<Rightarrow> string \<Rightarrow> world \<Rightarrow> import_paths result" where
  "getImportPaths e baseDirPath w =
     forEach_plugin e baseDirPath (pluginDirs e baseDirPath)
       \<lparr>client = [], server = [], registry = []\<rparr> w"


section \<open>loadPlugins\<close>

definition pluginsPath :: "env \<Rightarrow> string" where
  "pluginsPath e = split_first ''.meteor'' (cwd e) @ ''/imports/plugins/''"

definition corePlugins :: "env \<Rightarrow> string" where
  "corePlugins e = pluginsPath e @ ''core/''"

definition includedPlugins :: "env \<Rightarrow> string" where
  "includedPlugins e = pluginsPath e @ ''included/''"

definition customPlugins :: "env \<Rightarrow> string" where
  "customPlugins e = pluginsPath e @ ''custom/''"

text \<open>Lines 123 to 137 of \<^verbatim>\<open>loadPlugins\<close>: the three tiers are read in turn, and the two
  manifests (client, server) are concatenated from what they returned.\<close>

definition loadPlugins_imports :: "env \<Rightarrow> world \<Rightarrow> (string list \<times> string list) result" where
  "loadPlugins_imports e w =
     (case getImportPaths e (corePlugins e) w of
        Exited code w1 \<Rightarrow> Exited code w1
      | Return core w1 \<Rightarrow>
     (case getImportPaths e (includedPlugins e) w1 of
        Exited code w2 \<Rightarrow> Exited code w2
      | Return included w2 \<Rightarrow>
     (case getImportPaths e (customPlugins e) w2 of
        Exited code w3 \<Rightarrow> Exited code w3
      | Return custom w3 \<Rightarrow>
          Return (client core @ client included @ client custom,
                  server core @ server included @ server custom @
                  registry core @ registry included @ registry custom) w3)))"

definition clientFile :: "env \<Rightarrow> string" where
  "clientFile e = appRoot e @ ''/client/plugins.js''"

definition serverFile :: "env \<Rightarrow> string" where
  "serverFile e = appRoot e @ ''/server/plugins.js''"

text \<open>The whole of \<^verbatim>\<open>loadPlugins\<close>: the manifests, then the client file, then the server file.\<close>

definition loadPlugins :: "env \<Rightarrow> world \<Rightarrow> unit result" where
  "loadPlugins e w =
     (case loadPlugins_imports e w of
        Exited code w1 \<Rightarrow> Exited code w1
      | Return (clientImports, serverImports) w1 \<Rightarrow>
          (case generateImportsFile e (clientFile e) clientImports w1 of
             Exited code w2 \<Rightarrow> Exited code w2
           | Return u w2 \<Rightarrow> generateImportsFile e (serverFile e) serverImports w2))"


section \<open>Reading a run back\<close>

text \<open>
  The outcome of a call, read back: the world it left, and the value it returned (none
  when the process exited).
\<close>

fun world_of :: "'a result \<Rightarrow> world" where
  "world_of (Return x w) = w"
| "world_of (Exited code w) = w"

fun returned :: "'a result \<Rightarrow> 'a option" where
  "returned (Return x w) = Some x"
| "returned (Exited code w) = None"

text \<open>The status the process exited with, none when the call returned.\<close>

fun exit_code :: "'a result \<Rightarrow> nat option" where
  "exit_code (Return x w) = None"
| "exit_code (Exited code w) = Some code"

text \<open>
  The import paths one tier hands back, written without the loop: the plugin directories
  that passed the filter and have the artifact, in listing order, each mapped to its
  import path. \<open>getImportPaths_Return\<close> proves that the loop returns exactly these.
\<close>

definition clientPaths :: "env \<Rightarrow> string \<Rightarrow> string list" where
  "clientPaths e baseDirPath =
     map (\<lambda>d. getImportPath e (replace_first ''/index.js'' [] (baseDirPath @ d @ ''/client/index.js'')))
       (filter (\<lambda>d. exists e (baseDirPath @ d @ ''/client/index.js'')) (pluginDirs e baseDirPath))"

definition serverPaths :: "env \<Rightarrow> string \<Rightarrow> string list" where
  "serverPaths e baseDirPath =
     map (\<lambda>d. getImportPath e (replace_first ''/index.js'' [] (baseDirPath @ d @ ''/server/index.js'')))
       (filter (\<lambda>d. exists e (baseDirPath @ d @ ''/server/index.js'')) (pluginDirs e baseDirPath))"

definition registryPaths :: "env \<Rightarrow> string \<Rightarrow> string list" where
  "registryPaths e baseDirPath =
     map (\<lambda>d. getImportPath e (baseDirPath @ d @ ''/register.js''))
       (filter (\<lambda>d. exists e (baseDirPath @ d @ ''/register.js'')) (pluginDirs e baseDirPath))"

text \<open>The two manifests, written without the loops.\<close>

definition clientImports :: "env \<Rightarrow> string list" where
  "clientImports e =
     clientPaths e (corePlugins e) @ clientPaths e (includedPlugins e) @ clientPaths e (customPlugins e)"

definition serverEntries :: "env \<Rightarrow> string list" where
  "serverEntries e =
     serverPaths e (corePlugins e) @ serverPaths e (includedPlugins e) @ serverPaths e (customPlugins e)"

definition registrations :: "env \<Rightarrow> string list" where
  "registrations e =
     registryPaths e (corePlugins e) @ registryPaths e (includedPlugins e) @ registryPaths e (customPlugins e)"

text \<open>The text of a manifest file: the header, then one statement per import path.\<close>

definition manifest_text :: "string list \<Rightarrow> string" where
  "manifest_text importPaths = importFileMessage @ concat (map import_line importPaths)"


text \<open>
  A manifest \<open>m\<close> lists the paths of a first tier \<open>A\<close> (in any order), then the paths of
  a second tier \<open>B\<close>, then those of a third tier \<open>C\<close>, and nothing else.
\<close>

definition in_tier_order :: "string list \<Rightarrow> string list \<Rightarrow> string list \<Rightarrow> string list \<Rightarrow> bool" where
  "in_tier_order A B C m =
     (mset (take (length A) m) = mset A \<and>
      mset (take (length B) (drop (length A) m)) = mset B \<and>
      mset (drop (length A + length B) m) = mset C)"

text \<open>Two environments describe the same installation when they agree on the working
  directory, the plugin tree, the configuration and the path library; they may differ in
  what fails.\<close>

definition same_installation :: "env \<Rightarrow> env \<Rightarrow> bool" where
  "same_installation e1 e2 =
     (cwd e1 = cwd e2 \<and> getDirectories e1 = getDirectories e2 \<and> exists e1 = exists e2 \<and>
      disabledPlugins e1 = disabledPlugins e2 \<and> path_relative e1 = path_relative e2)"

text \<open>The write attempts of a trace, and the shell commands it ran, in order.\<close>

fun is_write :: "event \<Rightarrow> bool" where
  "is_write (WriteFile file data) = True"
| "is_write (AppendFile file data) = True"
| "is_write ev = False"

fun installs :: "event list \<Rightarrow> string list" where
  "installs [] = []"
| "installs (ExecSync cmd # evs) = cmd # installs evs"
| "installs (ev # evs) = installs evs"

text \<open>The plugins of a tier whose install would fail: they passed the filter, have a
  \<^verbatim>\<open>package.json\<close>, and their install command exits non-zero.\<close>

definition install_fails_for :: "env \<Rightarrow> string \<Rightarrow> string \<Rightarrow> bool" where
  "install_fails_for e baseDirPath plugin =
     (exists e (baseDirPath @ plugin @ ''/package.json'') \<and>
      install_fails e (install_command baseDirPath plugin))"

definition failing_plugins :: "env \<Rightarrow> string \<Rightarrow> string list" where
  "failing_plugins e baseDirPath = filter (install_fails_for e baseDirPath) (pluginDirs e baseDirPath)"

text \<open>The three roots, in the order \<^verbatim>\<open>loadPlugins\<close> reads them.\<close>

definition tiers :: "env \<Rightarrow> string list" where
  "tiers e = [corePlugins e, includedPlugins e, customPlugins e]"

text \<open>The install commands of the plugin directories that passed the filter.\<close>

definition allowed_installs :: "env \<Rightarrow> string set" where
  "allowed_installs e =
     install_command (corePlugins e) ` set (pluginDirs e (corePlugins e)) \<union>
     install_command (includedPlugins e) ` set (pluginDirs e (includedPlugins e)) \<union>
     install_command (customPlugins e) ` set (pluginDirs e (customPlugins e))"

text \<open>From \<open>w\<close> to \<open>w'\<close> the trace only grew, and every shell command it gained is
  in \<open>S\<close>.\<close>

definition runs_only :: "string set \<Rightarrow> world \<Rightarrow> world \<Rightarrow> bool" where
  "runs_only S w w' = (\<exists>evs. trace w' = trace w @ evs \<and> set (installs evs) \<subseteq> S)"

text \<open>The same environment with the directory \<open>d\<close> deleted from every listing.\<close>

definition without_directory :: "string \<Rightarrow> env \<Rightarrow> env" where
  "without_directory d e = e\<lparr>getDirectories := (\<lambda>b. removeAll d (getDirectories e b))\<rparr>"


section \<open>Node's path.relative on POSIX, and concrete installations\<close>

text \<open>
  \<^verbatim>\<open>path.posix.relative(from, to)\<close> for absolute arguments: both paths are normalised
  (empty and \<^verbatim>\<open>.\<close> segments dropped, \<^verbatim>\<open>..\<close> removing the segment before it), their common
  leading segments are dropped, and the answer climbs out of what is left of \<open>from\<close> and
  descends into what is left of \<open>to\<close>. The theorems below hold for any \<open>path_relative\<close>;
  this one is what the concrete installations run on.
\<close>

fun split_on :: "char \<Rightarrow> string \<Rightarrow> string list" where
  "split_on sep [] = [[]]"
| "split_on sep (c # cs) =
     (if c = sep then [] # split_on sep cs
      else (case split_on sep cs of [] \<Rightarrow> [[c]] | p # ps \<Rightarrow> (c # p) # ps))"

fun normalize_segments :: "string list \<Rightarrow> string list \<Rightarrow> string list" where
  "normalize_segments [] acc = rev acc"
| "normalize_segments (s # ss) acc =
     (if s = [] \<or> s = ''.'' then normalize_segments ss acc
      else if s = ''..'' then normalize_segments ss (tl acc)
      else normalize_segments ss (s # acc))"

definition posix_segments :: "string \<Rightarrow> string list" where
  "posix_segments p = normalize_segments (split_on CHR ''/'' p) []"

fun drop_common :: "string list \<Rightarrow> string list \<Rightarrow> string list \<times> string list" where
  "drop_common (x # xs) (y # ys) = (if x = y then drop_common xs ys else (x # xs, y # ys))"
| "drop_common xs ys = (xs, ys)"

fun join_slash :: "string list \<Rightarrow> string" where
  "join_slash [] = []"
| "join_slash [s] = s"
| "join_slash (s # t # ss) = s @ ''/'' @ join_slash (t # ss)"

definition posix_relative :: "string \<Rightarrow> string \<Rightarrow> string" where
  "posix_relative from to =
     (case drop_common (posix_segments from) (posix_segments to) of
        (up, down) \<Rightarrow> join_slash (map (\<lambda>s. ''..'') up @ down))"

text \<open>
  The shop: an application at \<^verbatim>\<open>/app\<close>, started from its \<^verbatim>\<open>.meteor/local\<close> directory.
  Core holds \<^verbatim>\<open>.hidden\<close> (client entry, package.json), \<^verbatim>\<open>A\<close> (client entry, server entry,
  register.js, package.json) and \<^verbatim>\<open>B\<close> (server entry, package.json; disabled); included
  holds \<^verbatim>\<open>C\<close> (client and server entry); custom holds \<^verbatim>\<open>D\<close> (client entry, register.js).
  Nothing fails.
\<close>

definition shop_files :: "string list" where
  "shop_files =
     [''/app//imports/plugins/core/.hidden/client/index.js'',
      ''/app//imports/plugins/core/.hidden/package.json'',
      ''/app//imports/plugins/core/A/client/index.js'',
      ''/app//imports/plugins/core/A/server/index.js'',
      ''/app//imports/plugins/core/A/register.js'',
      ''/app//imports/plugins/core/A/package.json'',
      ''/app//imports/plugins/core/B/server/index.js'',
      ''/app//imports/plugins/core/B/package.json'',
      ''/app//imports/plugins/included/C/client/index.js'',
      ''/app//imports/plugins/included/C/server/index.js'',
      ''/app//imports/plugins/custom/D/client/index.js'',
      ''/app//imports/plugins/custom/D/register.js'']"

definition shop_dirs :: "string \<Rightarrow> string list" where
  "shop_dirs baseDirPath =
     (if baseDirPath = ''/app//imports/plugins/core/'' then [''.hidden'', ''A'', ''B'']
      else if baseDirPath = ''/app//imports/plugins/included/'' then [''C'']
      else if baseDirPath = ''/app//imports/plugins/custom/'' then [''D'']
      else [])"

definition shop :: env where
  "shop = \<lparr>cwd = ''/app/.meteor/local'',
           getDirectories = shop_dirs,
           exists = (\<lambda>p. p \<in> set shop_files),
           disabledPlugins = [''B''],
           path_relative = posix_relative,
           install_fails = (\<lambda>cmd. False),
           write_fault = (\<lambda>tr file. Written)\<rparr>"

text \<open>A world in which nothing has happened yet and no file exists.\<close>

definition fresh :: world where
  "fresh = \<lparr>files = (\<lambda>f. None), trace = []\<rparr>"


text \<open>The two manifests of the shop.\<close>

definition shop_client_manifest :: "string list" where
  "shop_client_manifest =
     [''/imports/plugins/core/A/client'',
      ''/imports/plugins/included/C/client'',
      ''/imports/plugins/custom/D/client'']"

definition shop_server_manifest :: "string list" where
  "shop_server_manifest =
     [''/imports/plugins/core/A/server'',
      ''/imports/plugins/included/C/server'',
      ''/imports/plugins/core/A/register.js'',
      ''/imports/plugins/custom/D/register.js'']"

text \<open>A disk that fails once: the write attempted when the trace holds \<open>n\<close> events
  throws and leaves the file as \<open>left\<close>; every other write succeeds.\<close>

definition fault_at :: "nat \<Rightarrow> string option \<Rightarrow> event list \<Rightarrow> string \<Rightarrow> fs_outcome" where
  "fault_at n left tr file = (if length tr = n then Throws left else Written)"

text \<open>
  The shop with a failing disk. A run from \<open>fresh\<close> logs and runs one install (two events),
  resets the client file (two writes) and appends three statements, then resets the server
  file (two writes) and appends four statements. In \<open>shop_client_fault\<close> the first append
  to the client file throws; in \<open>shop_server_fault\<close> the second append to the server file
  throws. Both leave the file torn after the header.
\<close>

definition shop_client_fault :: env where
  "shop_client_fault = shop\<lparr>write_fault := fault_at 4 (Some (importFileMessage @ ''imp''))\<rparr>"

definition shop_server_fault :: env where
  "shop_server_fault = shop\<lparr>write_fault := fault_at 10 (Some (importFileMessage @ ''imp''))\<rparr>"

text \<open>The shop in which the install of plugin \<^verbatim>\<open>A\<close> exits non-zero.\<close>

definition shop_install_fault :: env where
  "shop_install_fault =
     shop\<lparr>install_fails := (\<lambda>cmd. cmd = ''cd /app//imports/plugins/core/A && meteor npm i'')\<rparr>"

text \<open>The worlds a run from \<open>fresh\<close> passes through in the shop: after the three tiers
  were read, after the client file, after the server file.\<close>

definition after_imports :: "env \<Rightarrow> world" where
  "after_imports e = world_of (loadPlugins_imports e fresh)"

definition after_client :: "env \<Rightarrow> world" where
  "after_client e =
     world_of (generateImportsFile e (clientFile e) shop_client_manifest (after_imports e))"

definition after_server :: "env \<Rightarrow> world" where
  "after_server e =
     world_of (generateImportsFile e (serverFile e) shop_server_manifest (after_client e))"

text \<open>
  A second installation: the application at \<^verbatim>\<open>/app\<close>, started from its root, with one core
  plugin whose directory is named \<^verbatim>\<open>index.js-tools\<close>; it has a client entry and a
  register.js. Nothing fails.
\<close>

definition tools_files :: "string list" where
  "tools_files =
     [''/app/imports/plugins/core/index.js-tools/client/index.js'',
      ''/app/imports/plugins/core/index.js-tools/register.js'']"

definition tools_shop :: env where
  "tools_shop = \<lparr>cwd = ''/app'',
           getDirectories = (\<lambda>b. if b = ''/app/imports/plugins/core/'' then [''index.js-tools''] else []),
           exists = (\<lambda>p. p \<in> set tools_files),
           disabledPlugins = [],
           path_relative = posix_relative,
           install_fails = (\<lambda>cmd. False),
           write_fault = (\<lambda>tr file. Written)\<rparr>"


section \<open>Lemmas\<close>

lemma plugin_body_files: "files (world_of (plugin_body e b d acc w)) = files w"
  by (simp add: plugin_body_def Let_def Log_info_def Log_error_def)

lemma forEach_plugin_files: "files (world_of (forEach_plugin e b ds acc w)) = files w"
proof (induction ds arbitrary: acc w)
  case Nil
  show ?case by simp
next
  case (Cons d ds)
  show ?case
  proof (cases "plugin_body e b d acc w")
    case (Return acc1 w1)
    with plugin_body_files [of e b d acc w] Cons.IH [of acc1 w1] show ?thesis by simp
  next
    case (Exited code w1)
    with plugin_body_files [of e b d acc w] show ?thesis by simp
  qed
qed

lemma plugin_body_Return:
  assumes "plugin_body e b d acc w = Return acc1 w1"
  shows "client acc1 = client acc @ map (\<lambda>d. getImportPath e (replace_first ''/index.js'' [] (b @ d @ ''/client/index.js'')))
           (filter (\<lambda>d. exists e (b @ d @ ''/client/index.js'')) [d])"
    and "server acc1 = server acc @ map (\<lambda>d. getImportPath e (replace_first ''/index.js'' [] (b @ d @ ''/server/index.js'')))
           (filter (\<lambda>d. exists e (b @ d @ ''/server/index.js'')) [d])"
    and "registry acc1 = registry acc @ map (\<lambda>d. getImportPath e (b @ d @ ''/register.js''))
           (filter (\<lambda>d. exists e (b @ d @ ''/register.js'')) [d])"
  using assms by (auto simp: plugin_body_def Let_def split: if_splits)

lemma forEach_plugin_Return:
  "forEach_plugin e b ds acc w = Return acc' w' \<Longrightarrow>
     client acc' = client acc @ map (\<lambda>d. getImportPath e (replace_first ''/index.js'' [] (b @ d @ ''/client/index.js'')))
           (filter (\<lambda>d. exists e (b @ d @ ''/client/index.js'')) ds) \<and>
     server acc' = server acc @ map (\<lambda>d. getImportPath e (replace_first ''/index.js'' [] (b @ d @ ''/server/index.js'')))
           (filter (\<lambda>d. exists e (b @ d @ ''/server/index.js'')) ds) \<and>
     registry acc' = registry acc @ map (\<lambda>d. getImportPath e (b @ d @ ''/register.js''))
           (filter (\<lambda>d. exists e (b @ d @ ''/register.js'')) ds)"
proof (induction ds arbitrary: acc w)
  case Nil
  then show ?case by simp
next
  case (Cons d ds)
  from Cons.prems obtain acc1 w1 where
    body: "plugin_body e b d acc w = Return acc1 w1" and
    rest: "forEach_plugin e b ds acc1 w1 = Return acc' w'"
    by (auto split: result.splits)
  from Cons.IH [OF rest] plugin_body_Return [OF body] show ?case
    by simp
qed

lemma getImportPaths_Return:
  assumes "getImportPaths e b w = Return ps w'"
  shows "client ps = clientPaths e b" and "server ps = serverPaths e b"
    and "registry ps = registryPaths e b"
  using forEach_plugin_Return [OF assms [unfolded getImportPaths_def]]
  by (simp_all add: clientPaths_def serverPaths_def registryPaths_def)

lemma getImportPaths_files: "files (world_of (getImportPaths e b w)) = files w"
  by (simp add: getImportPaths_def forEach_plugin_files)

lemma writeFileSync_Inr:
  "writeFileSync e file data w = Inr w1 \<Longrightarrow> files w1 = (files w)(file \<mapsto> data)"
  by (auto simp: writeFileSync_def split: fs_outcome.splits)

lemma appendFileSync_Inr:
  "appendFileSync e file data w = Inr w1 \<Longrightarrow> files w file = Some old \<Longrightarrow>
     files w1 = (files w)(file \<mapsto> old @ data)"
  by (auto simp: appendFileSync_def split: fs_outcome.splits)

lemma writeFileSync_other:
  "g \<noteq> file \<Longrightarrow> files (case_sum id id (writeFileSync e file data w)) g = files w g"
  by (simp add: writeFileSync_def split: fs_outcome.splits)

lemma appendFileSync_other:
  "g \<noteq> file \<Longrightarrow> files (case_sum id id (appendFileSync e file data w)) g = files w g"
  by (simp add: appendFileSync_def split: fs_outcome.splits)

lemma forEach_import_Return:
  "forEach_import e file ps w = Return u w' \<Longrightarrow> files w file = Some old \<Longrightarrow>
     files w' = (files w)(file \<mapsto> old @ concat (map import_line ps))"
proof (induction ps arbitrary: w old)
  case Nil
  then show ?case by auto
next
  case (Cons p ps)
  from Cons.prems(1) obtain w1 where
    app: "appendFileSync e file (import_line p) w = Inr w1" and
    rest: "forEach_import e file ps w1 = Return u w'"
    by (auto split: sum.splits)
  from appendFileSync_Inr [OF app Cons.prems(2)]
  have w1: "files w1 = (files w)(file \<mapsto> old @ import_line p)" .
  then have "files w1 file = Some (old @ import_line p)" by simp
  from Cons.IH [OF rest this] w1 show ?case by (simp add: fun_eq_iff)
qed

lemma forEach_import_other:
  "g \<noteq> file \<Longrightarrow> files (world_of (forEach_import e file ps w)) g = files w g"
proof (induction ps arbitrary: w)
  case Nil
  then show ?case by simp
next
  case (Cons p ps)
  show ?case
  proof (cases "appendFileSync e file (import_line p) w")
    case (Inl w1)
    with appendFileSync_other [OF Cons.prems, of e "import_line p" w] show ?thesis
      by (simp add: Log_error_def)
  next
    case (Inr w1)
    with appendFileSync_other [OF Cons.prems, of e "import_line p" w] Cons.IH [OF Cons.prems, of w1]
    show ?thesis by simp
  qed
qed

lemma generateImportsFile_Return:
  assumes "generateImportsFile e file ps w = Return u w'"
  shows "files w' = (files w)(file \<mapsto> manifest_text ps)"
proof -
  from assms obtain w1 w2 where
    r1: "writeFileSync e file [] w = Inr w1" and
    r2: "writeFileSync e file importFileMessage w1 = Inr w2" and
    r3: "forEach_import e file ps w2 = Return u w'"
    by (auto simp: generateImportsFile_def split: sum.splits)
  have f2: "files w2 = (files w)(file \<mapsto> importFileMessage)"
    using writeFileSync_Inr [OF r1] writeFileSync_Inr [OF r2] by simp
  then have "files w2 file = Some importFileMessage" by simp
  from forEach_import_Return [OF r3 this] f2 show ?thesis
    by (simp add: manifest_text_def)
qed

lemma generateImportsFile_other:
  assumes "g \<noteq> file"
  shows "files (world_of (generateImportsFile e file ps w)) g = files w g"
proof (cases "writeFileSync e file [] w")
  case (Inl w1)
  with writeFileSync_other [OF assms, of e "[]" w] show ?thesis
    by (simp add: generateImportsFile_def Log_error_def)
next
  case r1: (Inr w1)
  with writeFileSync_other [OF assms, of e "[]" w]
  have f1: "files w1 g = files w g" by simp
  show ?thesis
  proof (cases "writeFileSync e file importFileMessage w1")
    case (Inl w2)
    with r1 f1 writeFileSync_other [OF assms, of e importFileMessage w1] show ?thesis
      by (simp add: generateImportsFile_def Log_error_def)
  next
    case (Inr w2)
    with r1 f1 writeFileSync_other [OF assms, of e importFileMessage w1]
      forEach_import_other [OF assms, of e ps w2]
    show ?thesis
      by (simp add: generateImportsFile_def)
  qed
qed

lemma clientFile_neq_serverFile: "clientFile e \<noteq> serverFile e"
  by (simp add: clientFile_def serverFile_def)

lemma loadPlugins_imports_Return:
  assumes "loadPlugins_imports e w = Return (ci, si) w'"
  shows "ci = clientImports e" and "si = serverEntries e @ registrations e" and "files w' = files w"
proof -
  from assms obtain core w1 included w2 custom where
    r1: "getImportPaths e (corePlugins e) w = Return core w1" and
    r2: "getImportPaths e (includedPlugins e) w1 = Return included w2" and
    r3: "getImportPaths e (customPlugins e) w2 = Return custom w'" and
    ci: "ci = client core @ client included @ client custom" and
    si: "si = server core @ server included @ server custom @
              registry core @ registry included @ registry custom"
    by (auto simp: loadPlugins_imports_def split: result.splits)
  from ci getImportPaths_Return(1) [OF r1] getImportPaths_Return(1) [OF r2]
    getImportPaths_Return(1) [OF r3]
  show "ci = clientImports e" by (simp add: clientImports_def)
  from si getImportPaths_Return(2,3) [OF r1] getImportPaths_Return(2,3) [OF r2]
    getImportPaths_Return(2,3) [OF r3]
  show "si = serverEntries e @ registrations e"
    by (simp add: serverEntries_def registrations_def)
  from getImportPaths_files [of e "corePlugins e" w] r1 have "files w1 = files w" by simp
  moreover from getImportPaths_files [of e "includedPlugins e" w1] r2 have "files w2 = files w1" by simp
  moreover from getImportPaths_files [of e "customPlugins e" w2] r3 have "files w' = files w2" by simp
  ultimately show "files w' = files w" by simp
qed

lemma loadPlugins_imports_files: "files (world_of (loadPlugins_imports e w)) = files w"
proof (cases "getImportPaths e (corePlugins e) w")
  case (Exited code w1)
  with getImportPaths_files [of e "corePlugins e" w] show ?thesis
    by (simp add: loadPlugins_imports_def)
next
  case r1: (Return core w1)
  with getImportPaths_files [of e "corePlugins e" w] have f1: "files w1 = files w" by simp
  show ?thesis
  proof (cases "getImportPaths e (includedPlugins e) w1")
    case (Exited code w2)
    with r1 f1 getImportPaths_files [of e "includedPlugins e" w1] show ?thesis
      by (simp add: loadPlugins_imports_def)
  next
    case r2: (Return included w2)
    with f1 getImportPaths_files [of e "includedPlugins e" w1] have f2: "files w2 = files w" by simp
    show ?thesis
    proof (cases "getImportPaths e (customPlugins e) w2")
      case (Exited code w3)
      with r1 r2 f2 getImportPaths_files [of e "customPlugins e" w2] show ?thesis
        by (simp add: loadPlugins_imports_def)
    next
      case (Return custom w3)
      with r1 r2 f2 getImportPaths_files [of e "customPlugins e" w2] show ?thesis
        by (simp add: loadPlugins_imports_def)
    qed
  qed
qed

lemma loadPlugins_Return:
  assumes "loadPlugins e w = Return u w'"
  shows "files w' = (files w)(clientFile e \<mapsto> manifest_text (clientImports e),
                              serverFile e \<mapsto> manifest_text (serverEntries e @ registrations e))"
proof -
  from assms obtain ci si w1 u2 w2 where
    r1: "loadPlugins_imports e w = Return (ci, si) w1" and
    r2: "generateImportsFile e (clientFile e) ci w1 = Return u2 w2" and
    r3: "generateImportsFile e (serverFile e) si w2 = Return u w'"
    by (auto simp: loadPlugins_def split: result.splits prod.splits)
  from loadPlugins_imports_Return [OF r1] generateImportsFile_Return [OF r2]
    generateImportsFile_Return [OF r3]
  show ?thesis by simp
qed

lemma returned_Some: "returned r = Some x \<Longrightarrow> r = Return x (world_of r)"
  by (cases r) simp_all





lemma same_installation_manifests:
  assumes "same_installation e1 e2"
  shows "clientImports e2 = clientImports e1" and "serverEntries e2 = serverEntries e1"
    and "registrations e2 = registrations e1" and "clientFile e2 = clientFile e1"
    and "serverFile e2 = serverFile e1"
  using assms
  by (simp_all add: same_installation_def clientImports_def serverEntries_def registrations_def
      clientPaths_def serverPaths_def registryPaths_def pluginDirs_def rejected_def
      getImportPath_def appRoot_def corePlugins_def includedPlugins_def customPlugins_def
      pluginsPath_def clientFile_def serverFile_def)

lemma in_tier_order_append: "in_tier_order A B C (A @ B @ C)"
  by (simp add: in_tier_order_def)

lemma exit_code_Some: "exit_code r = Some code \<Longrightarrow> r = Exited code (world_of r)"
  by (cases r) simp_all

lemma installs_append: "installs (xs @ ys) = installs xs @ installs ys"
  by (induction xs rule: installs.induct) simp_all

lemma plugin_body_trace:
  "\<exists>evs. trace (world_of (plugin_body e b d acc w)) = trace w @ evs \<and>
         filter is_write evs = [] \<and> set (installs evs) \<subseteq> {install_command b d}"
  by (simp add: plugin_body_def Let_def Log_info_def Log_error_def)

lemma forEach_plugin_trace:
  "\<exists>evs. trace (world_of (forEach_plugin e b ds acc w)) = trace w @ evs \<and>
         filter is_write evs = [] \<and> set (installs evs) \<subseteq> install_command b ` set ds"
proof (induction ds arbitrary: acc w)
  case Nil
  show ?case by simp
next
  case (Cons d ds)
  from plugin_body_trace [of e b d acc w] obtain evs1 where
    t1: "trace (world_of (plugin_body e b d acc w)) = trace w @ evs1" and
    q1: "filter is_write evs1 = []" and
    i1: "set (installs evs1) \<subseteq> {install_command b d}" by blast
  show ?case
  proof (cases "plugin_body e b d acc w")
    case (Exited code w1)
    with t1 q1 i1 show ?thesis by auto
  next
    case (Return acc1 w1)
    from Cons.IH [of acc1 w1] obtain evs2 where
      t2: "trace (world_of (forEach_plugin e b ds acc1 w1)) = trace w1 @ evs2" and
      q2: "filter is_write evs2 = []" and
      i2: "set (installs evs2) \<subseteq> install_command b ` set ds" by blast
    from Return t1 t2 have "trace (world_of (forEach_plugin e b (d # ds) acc w)) = trace w @ (evs1 @ evs2)"
      by simp
    moreover from q1 q2 have "filter is_write (evs1 @ evs2) = []" by simp
    moreover from i1 i2 have "set (installs (evs1 @ evs2)) \<subseteq> install_command b ` set (d # ds)"
      by (auto simp: installs_append)
    ultimately show ?thesis by blast
  qed
qed

lemma plugin_body_fails:
  assumes "install_fails_for e b d"
  shows "\<exists>w'. plugin_body e b d acc w = Exited 1 w' \<and> files w' = files w \<and>
           trace w' = trace w @ [LogInfo (''Installing dependencies for '' @ d @ ''...'' @ [CHR 0x0A]),
             ExecSync (install_command b d),
             LogError (''Failed to install npm dependencies for plugin: '' @ d)]"
  using assms
  by (simp add: install_fails_for_def plugin_body_def Let_def Log_info_def Log_error_def)

lemma plugin_body_ok:
  assumes "\<not> install_fails_for e b d"
  shows "\<exists>acc1 w1. plugin_body e b d acc w = Return acc1 w1"
  using assms
  by (simp add: install_fails_for_def plugin_body_def Let_def)

lemma forEach_plugin_ok:
  "filter (install_fails_for e b) ds = [] \<Longrightarrow> \<exists>acc' w'. forEach_plugin e b ds acc w = Return acc' w'"
proof (induction ds arbitrary: acc w)
  case Nil
  show ?case by simp
next
  case (Cons d ds)
  from Cons.prems have nd: "\<not> install_fails_for e b d" and rest: "filter (install_fails_for e b) ds = []"
    by (simp_all split: if_splits)
  from plugin_body_ok [OF nd, of acc w] obtain acc1 w1 where
    "plugin_body e b d acc w = Return acc1 w1" by blast
  with Cons.IH [OF rest, of acc1 w1] show ?case by simp
qed

lemma forEach_plugin_fails:
  "filter (install_fails_for e b) ds \<noteq> [] \<Longrightarrow>
     \<exists>w' d evs. forEach_plugin e b ds acc w = Exited 1 w' \<and>
        d \<in> set (filter (install_fails_for e b) ds) \<and> files w' = files w \<and>
        trace w' = trace w @ evs @ [ExecSync (install_command b d),
          LogError (''Failed to install npm dependencies for plugin: '' @ d)] \<and>
        filter is_write evs = []"
proof (induction ds arbitrary: acc w)
  case Nil
  then show ?case by simp
next
  case (Cons d ds)
  show ?case
  proof (cases "install_fails_for e b d")
    case True
    from plugin_body_fails [OF True, of acc w] obtain w' where
      "plugin_body e b d acc w = Exited 1 w'" "files w' = files w"
      "trace w' = trace w @ [LogInfo (''Installing dependencies for '' @ d @ ''...'' @ [CHR 0x0A])] @
         [ExecSync (install_command b d),
          LogError (''Failed to install npm dependencies for plugin: '' @ d)]"
      by auto
    with True show ?thesis
      by (intro exI [of _ w'] exI [of _ d]
          exI [of _ "[LogInfo (''Installing dependencies for '' @ d @ ''...'' @ [CHR 0x0A])]"]) simp
  next
    case False
    with Cons.prems have rest: "filter (install_fails_for e b) ds \<noteq> []" by simp
    from plugin_body_ok [OF False, of acc w] obtain acc1 w1 where
      body: "plugin_body e b d acc w = Return acc1 w1" by blast
    from plugin_body_trace [of e b d acc w] plugin_body_files [of e b d acc w] body obtain evs1 where
      t1: "trace w1 = trace w @ evs1" and q1: "filter is_write evs1 = []" and f1: "files w1 = files w"
      by auto
    from Cons.IH [OF rest, of acc1 w1] obtain w' d' evs where
      r: "forEach_plugin e b ds acc1 w1 = Exited 1 w'" and
      d': "d' \<in> set (filter (install_fails_for e b) ds)" and
      f: "files w' = files w1" and
      t: "trace w' = trace w1 @ evs @ [ExecSync (install_command b d'),
          LogError (''Failed to install npm dependencies for plugin: '' @ d')]" and
      q: "filter is_write evs = []" by blast
    from body r d' f f1 t t1 q q1 show ?thesis
      by (intro exI [of _ w'] exI [of _ d'] exI [of _ "evs1 @ evs"]) simp
  qed
qed

lemma loadPlugins_imports_stages:
  assumes step: "\<And>b w. b \<in> set (tiers e) \<Longrightarrow> R w (world_of (getImportPaths e b w))"
    and trans: "\<And>a b c. R a b \<Longrightarrow> R b c \<Longrightarrow> R a c"
  shows "R w (world_of (loadPlugins_imports e w))"
proof (cases "getImportPaths e (corePlugins e) w")
  case (Exited code w1)
  with step [of "corePlugins e" w] show ?thesis
    by (simp add: loadPlugins_imports_def tiers_def)
next
  case r1: (Return core w1)
  with step [of "corePlugins e" w] have s1: "R w w1" by (simp add: tiers_def)
  show ?thesis
  proof (cases "getImportPaths e (includedPlugins e) w1")
    case (Exited code w2)
    with step [of "includedPlugins e" w1] have "R w1 w2" by (simp add: tiers_def)
    with s1 r1 Exited trans show ?thesis
      by (auto simp: loadPlugins_imports_def)
  next
    case r2: (Return included w2)
    with step [of "includedPlugins e" w1] have "R w1 w2" by (simp add: tiers_def)
    with s1 trans have s2: "R w w2" by blast
    show ?thesis
    proof (cases "getImportPaths e (customPlugins e) w2")
      case (Exited code w3)
      with step [of "customPlugins e" w2] have "R w2 w3" by (simp add: tiers_def)
      with s2 r1 r2 Exited trans show ?thesis
        by (auto simp: loadPlugins_imports_def)
    next
      case (Return custom w3)
      with step [of "customPlugins e" w2] have "R w2 w3" by (simp add: tiers_def)
      with s2 r1 r2 Return trans show ?thesis
        by (auto simp: loadPlugins_imports_def)
    qed
  qed
qed

lemma loadPlugins_stages:
  assumes imps: "\<And>w. R w (world_of (loadPlugins_imports e w))"
    and gen: "\<And>file ps w. R w (world_of (generateImportsFile e file ps w))"
    and trans: "\<And>a b c. R a b \<Longrightarrow> R b c \<Longrightarrow> R a c"
  shows "R w (world_of (loadPlugins e w))"
proof (cases "loadPlugins_imports e w")
  case (Exited code w1)
  with imps [of w] show ?thesis by (simp add: loadPlugins_def)
next
  case r1: (Return m w1)
  obtain ci si where m: "m = (ci, si)" by (cases m)
  from r1 imps [of w] have s1: "R w w1" by simp
  show ?thesis
  proof (cases "generateImportsFile e (clientFile e) ci w1")
    case (Exited code w2)
    with gen [of w1 "clientFile e" ci] have "R w1 w2" by simp
    with s1 r1 m Exited trans show ?thesis by (auto simp: loadPlugins_def)
  next
    case r2: (Return u w2)
    with gen [of w1 "clientFile e" ci] have "R w1 w2" by simp
    with s1 trans have s2: "R w w2" by blast
    from gen [of w2 "serverFile e" si] have "R w2 (world_of (generateImportsFile e (serverFile e) si w2))" .
    with s2 trans have "R w (world_of (generateImportsFile e (serverFile e) si w2))" by blast
    with r1 m r2 show ?thesis by (simp add: loadPlugins_def)
  qed
qed

lemma runs_only_trans: "runs_only S a b \<Longrightarrow> runs_only S b c \<Longrightarrow> runs_only S a c"
  by (auto simp: runs_only_def installs_append)

lemma getImportPaths_runs_only:
  assumes "b \<in> set (tiers e)"
  shows "runs_only (allowed_installs e) w (world_of (getImportPaths e b w))"
proof -
  from forEach_plugin_trace [of e b "pluginDirs e b" "\<lparr>client = [], server = [], registry = []\<rparr>" w]
  obtain evs where "trace (world_of (getImportPaths e b w)) = trace w @ evs"
    and "set (installs evs) \<subseteq> install_command b ` set (pluginDirs e b)"
    by (auto simp: getImportPaths_def)
  moreover from assms have "install_command b ` set (pluginDirs e b) \<subseteq> allowed_installs e"
    by (auto simp: tiers_def allowed_installs_def)
  ultimately show ?thesis unfolding runs_only_def by blast
qed

lemma forEach_import_runs_only: "runs_only S w (world_of (forEach_import e file ps w))"
proof (induction ps arbitrary: w)
  case Nil
  show ?case by (simp add: runs_only_def)
next
  case (Cons p ps)
  show ?case
  proof (cases "appendFileSync e file (import_line p) w")
    case (Inl w1)
    then show ?thesis
      by (auto simp: runs_only_def appendFileSync_def Log_error_def split: fs_outcome.splits)
  next
    case (Inr w1)
    then have "runs_only S w w1"
      by (auto simp: runs_only_def appendFileSync_def split: fs_outcome.splits)
    with Cons.IH [of w1] Inr runs_only_trans show ?thesis by auto
  qed
qed

lemma writeFileSync_runs_only: "runs_only S w (case_sum id id (writeFileSync e file data w))"
  by (auto simp: runs_only_def writeFileSync_def split: fs_outcome.splits)

lemma Log_error_runs_only: "runs_only S w (Log_error msg w)"
  by (simp add: runs_only_def Log_error_def)

lemma generateImportsFile_runs_only: "runs_only S w (world_of (generateImportsFile e file ps w))"
proof (cases "writeFileSync e file [] w")
  case (Inl w1)
  with writeFileSync_runs_only [of S w e "file" "[]"] Log_error_runs_only [of S w1]
  show ?thesis by (auto simp: generateImportsFile_def intro: runs_only_trans)
next
  case r1: (Inr w1)
  with writeFileSync_runs_only [of S w e "file" "[]"] have s1: "runs_only S w w1" by simp
  show ?thesis
  proof (cases "writeFileSync e file importFileMessage w1")
    case (Inl w2)
    with writeFileSync_runs_only [of S w1 e "file" importFileMessage] have "runs_only S w1 w2" by simp
    with s1 Log_error_runs_only [of S w2] r1 Inl show ?thesis
      by (auto simp: generateImportsFile_def intro: runs_only_trans)
  next
    case (Inr w2)
    with writeFileSync_runs_only [of S w1 e "file" importFileMessage] have "runs_only S w1 w2" by simp
    with s1 forEach_import_runs_only [of S w2 e "file" ps] r1 Inr show ?thesis
      by (auto simp: generateImportsFile_def intro: runs_only_trans)
  qed
qed

lemma loadPlugins_imports_runs_only:
  "runs_only (allowed_installs e) w (world_of (loadPlugins_imports e w))"
proof (rule loadPlugins_imports_stages)
  fix b w assume "b \<in> set (tiers e)"
  then show "runs_only (allowed_installs e) w (world_of (getImportPaths e b w))"
    by (rule getImportPaths_runs_only)
qed (rule runs_only_trans)

lemma loadPlugins_runs_only: "runs_only (allowed_installs e) w (world_of (loadPlugins e w))"
proof (rule loadPlugins_stages)
  fix w show "runs_only (allowed_installs e) w (world_of (loadPlugins_imports e w))"
    by (rule loadPlugins_imports_runs_only)
next
  fix f ps w show "runs_only (allowed_installs e) w (world_of (generateImportsFile e f ps w))"
    by (rule generateImportsFile_runs_only)
qed (rule runs_only_trans)

lemma install_command_tier_inj:
  assumes "b \<in> set (tiers e)" and "b' \<in> set (tiers e)"
    and "install_command b d = install_command b' d'"
  shows "d = d'"
  using assms
  by (auto simp: tiers_def install_command_def corePlugins_def includedPlugins_def
      customPlugins_def)

lemma getImportPaths_ok:
  assumes "failing_plugins e b = []"
  shows "\<exists>ps w'. getImportPaths e b w = Return ps w'"
  using forEach_plugin_ok [of e b "pluginDirs e b"] assms
  by (simp add: failing_plugins_def getImportPaths_def)

lemma getImportPaths_fails:
  assumes "failing_plugins e b \<noteq> []"
  shows "\<exists>w' d evs. getImportPaths e b w = Exited 1 w' \<and>
        d \<in> set (failing_plugins e b) \<and> files w' = files w \<and>
        trace w' = trace w @ evs @ [ExecSync (install_command b d),
          LogError (''Failed to install npm dependencies for plugin: '' @ d)] \<and>
        filter is_write evs = []"
  using forEach_plugin_fails [of e b "pluginDirs e b"] assms
  unfolding failing_plugins_def getImportPaths_def by blast

lemma getImportPaths_quiet:
  assumes "getImportPaths e b w = Return ps w'"
  shows "files w' = files w \<and> (\<exists>evs. trace w' = trace w @ evs \<and> filter is_write evs = [])"
  using forEach_plugin_trace [of e b "pluginDirs e b" "\<lparr>client = [], server = [], registry = []\<rparr>" w]
    getImportPaths_files [of e b w] assms
  by (auto simp: getImportPaths_def)

lemma filter_removeAll_rejected: "\<not> P d \<Longrightarrow> filter P (removeAll d xs) = filter P xs"
  by (induction xs) auto

lemma without_directory_fields:
  "cwd (without_directory d e) = cwd e"
  "exists (without_directory d e) = exists e"
  "disabledPlugins (without_directory d e) = disabledPlugins e"
  "path_relative (without_directory d e) = path_relative e"
  "install_fails (without_directory d e) = install_fails e"
  "write_fault (without_directory d e) = write_fault e"
  by (simp_all add: without_directory_def)

lemma without_directory_pluginDirs:
  assumes "rejected e d"
  shows "pluginDirs (without_directory d e) b = pluginDirs e b"
proof -
  have "rejected (without_directory d e) = rejected e"
    by (simp add: fun_eq_iff rejected_def without_directory_fields)
  moreover have "getDirectories (without_directory d e) b = removeAll d (getDirectories e b)"
    by (simp add: without_directory_def)
  ultimately show ?thesis
    using filter_removeAll_rejected [of "\<lambda>x. \<not> rejected e x" d "getDirectories e b"] assms
    by (simp add: pluginDirs_def)
qed

lemma without_directory_roots:
  "appRoot (without_directory d e) = appRoot e"
  "corePlugins (without_directory d e) = corePlugins e"
  "includedPlugins (without_directory d e) = includedPlugins e"
  "customPlugins (without_directory d e) = customPlugins e"
  "clientFile (without_directory d e) = clientFile e"
  "serverFile (without_directory d e) = serverFile e"
  by (simp_all add: appRoot_def corePlugins_def includedPlugins_def customPlugins_def
      pluginsPath_def clientFile_def serverFile_def without_directory_fields)

lemma without_directory_getImportPath:
  "getImportPath (without_directory d e) f = getImportPath e f"
  by (simp add: getImportPath_def without_directory_roots without_directory_fields)

lemma without_directory_plugin_body:
  "plugin_body (without_directory d e) b p acc w = plugin_body e b p acc w"
  by (simp add: plugin_body_def Let_def without_directory_getImportPath without_directory_fields)

lemma without_directory_forEach_plugin:
  "forEach_plugin (without_directory d e) b ds acc w = forEach_plugin e b ds acc w"
  by (induction ds arbitrary: acc w)
    (simp_all add: without_directory_plugin_body split: result.splits)

lemma without_directory_getImportPaths:
  assumes "rejected e d"
  shows "getImportPaths (without_directory d e) b w = getImportPaths e b w"
  by (simp add: getImportPaths_def without_directory_pluginDirs [OF assms]
      without_directory_forEach_plugin)

lemma without_directory_writes:
  "writeFileSync (without_directory d e) f data w = writeFileSync e f data w"
  "appendFileSync (without_directory d e) f data w = appendFileSync e f data w"
  by (simp_all add: writeFileSync_def appendFileSync_def without_directory_fields)

lemma without_directory_forEach_import:
  "forEach_import (without_directory d e) f ps w = forEach_import e f ps w"
  by (induction ps arbitrary: w) (simp_all add: without_directory_writes split: sum.splits)

lemma without_directory_generateImportsFile:
  "generateImportsFile (without_directory d e) f ps w = generateImportsFile e f ps w"
  by (simp add: generateImportsFile_def without_directory_writes
      without_directory_forEach_import split: sum.splits)

lemma write_failure_is_fatal:
  "writeFileSync e f [] w = Inl w1 \<Longrightarrow>
     generateImportsFile e f ps w = Exited 1 (Log_error (''Failed to reset plugins file at '' @ f) w1)"
  "writeFileSync e f [] w = Inr w1 \<Longrightarrow> writeFileSync e f importFileMessage w1 = Inl w2 \<Longrightarrow>
     generateImportsFile e f ps w = Exited 1 (Log_error (''Failed to reset plugins file at '' @ f) w2)"
  "appendFileSync e f (import_line p) w = Inl w1 \<Longrightarrow>
     forEach_import e f (p # ps) w =
       Exited 1 (Log_error (''Failed to write to plugins file at '' @ p) w1)"
  by (simp_all add: generateImportsFile_def)

lemma shop_paths_as_documented:
  "map_option client (returned (getImportPaths shop (corePlugins shop) fresh)) =
     Some [''/imports/plugins/core/A/client''] \<and>
   map_option server (returned (getImportPaths shop (corePlugins shop) fresh)) =
     Some [''/imports/plugins/core/A/server''] \<and>
   map_option registry (returned (getImportPaths shop (corePlugins shop) fresh)) =
     Some [''/imports/plugins/core/A/register.js'']"
  by code_simp

lemma replace_first_skip:
  "(\<And>k. k < length xs \<Longrightarrow> \<not> prefix pat (drop k xs @ ys)) \<Longrightarrow>
     replace_first pat rep (xs @ ys) = xs @ replace_first pat rep ys"
proof (induction xs)
  case Nil
  show ?case by simp
next
  case (Cons x xs)
  from Cons.prems [of 0] have "\<not> prefix pat (x # xs @ ys)" by simp
  moreover have "replace_first pat rep (xs @ ys) = xs @ replace_first pat rep ys"
  proof (rule Cons.IH)
    fix k assume "k < length xs"
    with Cons.prems [of "Suc k"] show "\<not> prefix pat (drop k xs @ ys)" by simp
  qed
  ultimately show ?case by simp
qed

lemma no_index_js_across:
  assumes "zs \<noteq> []" and "prefix ''/index.js'' (zs @ CHR ''/'' # ys)"
  shows "prefix ''/index.js'' zs"
proof -
  from assms(2) consider "prefix ''/index.js'' zs"
    | us where "''/index.js'' = zs @ us" "prefix us (CHR ''/'' # ys)"
    unfolding prefix_append by blast
  then show ?thesis
  proof cases
    case 1
    then show ?thesis .
  next
    case 2
    show ?thesis
    proof (cases us)
      case Nil
      with 2 show ?thesis by simp
    next
      case (Cons u us')
      with 2(2) have "u = CHR ''/''" by simp
      with Cons have "CHR ''/'' \<in> set us" by simp
      moreover from assms(1) 2(1) have "set us \<subseteq> set ''index.js''"
        by (cases zs) (auto simp: Cons_eq_append_conv)
      ultimately show ?thesis by auto
    qed
  qed
qed

lemma entry_filename_stripped:
  assumes "\<not> sublist ''/index.js'' dir"
  shows "replace_first ''/index.js'' [] (dir @ ''/client/index.js'') = dir @ ''/client''"
    and "replace_first ''/index.js'' [] (dir @ ''/server/index.js'') = dir @ ''/server''"
proof -
  have skip: "\<not> prefix ''/index.js'' (drop k dir @ CHR ''/'' # ys)" if "k < length dir" for k ys
  proof
    assume "prefix ''/index.js'' (drop k dir @ CHR ''/'' # ys)"
    with that no_index_js_across [of "drop k dir" ys] have "prefix ''/index.js'' (drop k dir)" by simp
    then have "sublist ''/index.js'' (drop k dir)" by (rule prefix_imp_sublist)
    moreover have "sublist (drop k dir) dir" by (rule sublist_drop)
    ultimately have "sublist ''/index.js'' dir" by (rule sublist_order.order_trans)
    with assms show False by simp
  qed
  from replace_first_skip [of dir "''/index.js''" "''/client/index.js''" "[]"] skip
  show "replace_first ''/index.js'' [] (dir @ ''/client/index.js'') = dir @ ''/client''" by simp
  from replace_first_skip [of dir "''/index.js''" "''/server/index.js''" "[]"] skip
  show "replace_first ''/index.js'' [] (dir @ ''/server/index.js'') = dir @ ''/server''" by simp
qed

lemma import_path_of_clean_directory:
  assumes "\<not> sublist ''/index.js'' (b @ d)"
  shows "getImportPath e (replace_first ''/index.js'' [] (b @ d @ ''/client/index.js'')) =
           forward_slashes (''/'' @ path_relative e (appRoot e) (b @ d @ ''/client''))"
    and "getImportPath e (replace_first ''/index.js'' [] (b @ d @ ''/server/index.js'')) =
           forward_slashes (''/'' @ path_relative e (appRoot e) (b @ d @ ''/server''))"
  using entry_filename_stripped [OF assms] by (simp_all add: getImportPath_def)


section \<open>The claims\<close>


subsection \<open>C1: tier precedence\<close>

text \<open>
  Claim C1, as amended. The claim reads: both manifests list all import paths contributed
  by core-tier plugins before any path contributed by an included-tier plugin, and all
  included-tier paths before any custom-tier path. That holds for the client manifest.
  The server manifest is built from the entry points of all tiers followed by the
  registration files of all tiers, so it keeps the tier order among its entry points
  (its first \<open>length (serverEntries e)\<close> paths) and again among its registration paths
  (the rest), and not across the two groups.
\<close>

theorem tier_precedence_by_kind:
  assumes "loadPlugins_imports e w = Return (ci, si) w'"
  shows "in_tier_order (clientPaths e (corePlugins e)) (clientPaths e (includedPlugins e))
           (clientPaths e (customPlugins e)) ci \<and>
         in_tier_order (serverPaths e (corePlugins e)) (serverPaths e (includedPlugins e))
           (serverPaths e (customPlugins e)) (take (length (serverEntries e)) si) \<and>
         in_tier_order (registryPaths e (corePlugins e)) (registryPaths e (includedPlugins e))
           (registryPaths e (customPlugins e)) (drop (length (serverEntries e)) si)"
proof -
  note m = loadPlugins_imports_Return(1,2) [OF assms]
  have "take (length (serverEntries e)) si = serverEntries e"
    and "drop (length (serverEntries e)) si = registrations e"
    using m by simp_all
  with m show ?thesis
    by (simp add: clientImports_def serverEntries_def registrations_def in_tier_order_append)
qed

text \<open>
  In the shop the three statements of the amended claim C1 hold of the manifests the run
  computes.
\<close>

theorem tier_precedence_by_kind_witness:
  "loadPlugins_imports shop fresh =
     Return (shop_client_manifest, shop_server_manifest) (world_of (loadPlugins_imports shop fresh)) \<and>
   in_tier_order (clientPaths shop (corePlugins shop)) (clientPaths shop (includedPlugins shop))
     (clientPaths shop (customPlugins shop)) shop_client_manifest \<and>
   in_tier_order (serverPaths shop (corePlugins shop)) (serverPaths shop (includedPlugins shop))
     (serverPaths shop (customPlugins shop))
     (take (length (serverEntries shop)) shop_server_manifest) \<and>
   in_tier_order (registryPaths shop (corePlugins shop)) (registryPaths shop (includedPlugins shop))
     (registryPaths shop (customPlugins shop))
     (drop (length (serverEntries shop)) shop_server_manifest)"
proof -
  have run: "loadPlugins_imports shop fresh =
     Return (shop_client_manifest, shop_server_manifest) (world_of (loadPlugins_imports shop fresh))"
    by (rule returned_Some) code_simp
  from tier_precedence_by_kind [OF run] run show ?thesis by simp
qed

text \<open>
  Claim C1 as it was stated fails in the shop. The first six equations are what
  \<^verbatim>\<open>getImportPaths\<close> hands back for each tier: core contributes a server entry and a
  registration to the server manifest, included a server entry, custom a registration.
  The seventh is the server manifest \<^verbatim>\<open>loadPlugins\<close> assembles: it lists the included
  tier's path second and the core tier's registration third, so the paths of the core tier
  do not all stand before the path of the included tier.
\<close>

theorem tier_precedence_server_counterexample:
  "map_option server (returned (getImportPaths shop (corePlugins shop) fresh)) =
     Some [''/imports/plugins/core/A/server''] \<and>
   map_option registry (returned (getImportPaths shop (corePlugins shop) fresh)) =
     Some [''/imports/plugins/core/A/register.js''] \<and>
   map_option server (returned (getImportPaths shop (includedPlugins shop) fresh)) =
     Some [''/imports/plugins/included/C/server''] \<and>
   map_option registry (returned (getImportPaths shop (includedPlugins shop) fresh)) =
     Some [] \<and>
   map_option server (returned (getImportPaths shop (customPlugins shop) fresh)) =
     Some [] \<and>
   map_option registry (returned (getImportPaths shop (customPlugins shop) fresh)) =
     Some [''/imports/plugins/custom/D/register.js''] \<and>
   map_option snd (returned (loadPlugins_imports shop fresh)) =
     Some [''/imports/plugins/core/A/server'',
           ''/imports/plugins/included/C/server'',
           ''/imports/plugins/core/A/register.js'',
           ''/imports/plugins/custom/D/register.js''] \<and>
   \<not> in_tier_order
       [''/imports/plugins/core/A/server'', ''/imports/plugins/core/A/register.js'']
       [''/imports/plugins/included/C/server'']
       [''/imports/plugins/custom/D/register.js'']
       [''/imports/plugins/core/A/server'',
        ''/imports/plugins/included/C/server'',
        ''/imports/plugins/core/A/register.js'',
        ''/imports/plugins/custom/D/register.js'']"
  by code_simp


subsection \<open>C2: entry points before registrations\<close>

text \<open>
  Claim C2. The server manifest is the server entry-point paths of the three tiers, followed
  by the registration paths of the three tiers: every entry-point path (of any tier) stands
  before every registration path (of any tier), and the registration paths are in the order
  core, included, custom.
\<close>

theorem entries_before_registrations:
  assumes "loadPlugins_imports e w = Return (ci, si) w'"
  shows "si = (serverPaths e (corePlugins e) @ serverPaths e (includedPlugins e) @
               serverPaths e (customPlugins e)) @
              (registryPaths e (corePlugins e) @ registryPaths e (includedPlugins e) @
               registryPaths e (customPlugins e))"
  using loadPlugins_imports_Return(2) [OF assms]
  by (simp add: serverEntries_def registrations_def)

text \<open>
  Claim C2 in the shop, whose server manifest has two entry points and two registrations.
\<close>

theorem entries_before_registrations_witness:
  "loadPlugins_imports shop fresh =
     Return (shop_client_manifest, shop_server_manifest) (world_of (loadPlugins_imports shop fresh)) \<and>
   shop_server_manifest =
     (serverPaths shop (corePlugins shop) @ serverPaths shop (includedPlugins shop) @
      serverPaths shop (customPlugins shop)) @
     (registryPaths shop (corePlugins shop) @ registryPaths shop (includedPlugins shop) @
      registryPaths shop (customPlugins shop))"
proof -
  have run: "loadPlugins_imports shop fresh =
     Return (shop_client_manifest, shop_server_manifest) (world_of (loadPlugins_imports shop fresh))"
    by (rule returned_Some) code_simp
  from entries_before_registrations [OF run] run show ?thesis by simp
qed


subsection \<open>C3: rejected directories contribute nothing\<close>

text \<open>
  Claim C3. A plugin directory whose name starts with a dot, or whose name is in
  \<^verbatim>\<open>disabledPlugins\<close>, contributes no import path to either manifest: whatever artifacts it
  holds, the manifests computed, and the whole run with the files it writes, are those of
  the installation in which the directory is not listed at all.
\<close>

theorem rejected_directory_contributes_nothing:
  assumes "rejected e d"
  shows "loadPlugins_imports (without_directory d e) w = loadPlugins_imports e w \<and>
         loadPlugins (without_directory d e) w = loadPlugins e w"
proof -
  have "loadPlugins_imports (without_directory d e) w = loadPlugins_imports e w"
    by (simp add: loadPlugins_imports_def without_directory_roots
        without_directory_getImportPaths [OF assms] split: result.splits)
  then show ?thesis
    by (simp add: loadPlugins_def without_directory_roots without_directory_generateImportsFile
        split: result.splits prod.splits)
qed

text \<open>
  Claim C3 in the shop: the disabled plugin \<^verbatim>\<open>B\<close> is listed under core and has a server
  entry, and the run is the run without it; its path is in neither manifest.
\<close>

theorem rejected_directory_contributes_nothing_witness:
  "rejected shop ''B'' \<and>
   ''B'' \<in> set (getDirectories shop (corePlugins shop)) \<and>
   exists shop (corePlugins shop @ ''B'' @ ''/server/index.js'') \<and>
   loadPlugins_imports (without_directory ''B'' shop) fresh = loadPlugins_imports shop fresh \<and>
   loadPlugins (without_directory ''B'' shop) fresh = loadPlugins shop fresh \<and>
   returned (loadPlugins_imports shop fresh) = Some (shop_client_manifest, shop_server_manifest)"
proof -
  have b: "rejected shop ''B''"
    and l: "''B'' \<in> set (getDirectories shop (corePlugins shop))"
    and s: "exists shop (corePlugins shop @ ''B'' @ ''/server/index.js'')"
    and m: "returned (loadPlugins_imports shop fresh) = Some (shop_client_manifest, shop_server_manifest)"
    by code_simp+
  from rejected_directory_contributes_nothing [OF b, of fresh] b l s m show ?thesis by simp
qed


subsection \<open>C4: import paths\<close>

text \<open>
  Claim C4, where the code departs from it. The claim reads: the client (and server) import
  path is the artifact's path relative to the application root, prefixed with a slash, with
  backslashes replaced, and with the trailing entry filename stripped; the registration path
  is computed the same way with the filename kept. \<^verbatim>\<open>getImportPaths\<close> strips the filename with
  \<^verbatim>\<open>replace('/index.js', '')\<close>, which removes the first occurrence of that text, not the
  trailing one. For the core plugin directory \<^verbatim>\<open>index.js-tools\<close> the first occurrence is in
  the directory name: the client import path comes out as
  \<^verbatim>\<open>/imports/plugins/core-tools/client/index.js\<close>, where the claim gives
  \<^verbatim>\<open>/imports/plugins/core/index.js-tools/client\<close> (the third conjunct computes the path of
  the containing directory). The registration path, which is not stripped, is as claimed.
  The lemma \<open>entry_filename_stripped\<close> shows that the trailing filename is the one removed
  whenever the text does not occur in the plugin directory's own path.
\<close>

theorem entry_filename_stripped_at_first_occurrence:
  "map_option client (returned (getImportPaths tools_shop (corePlugins tools_shop) fresh)) =
     Some [''/imports/plugins/core-tools/client/index.js''] \<and>
   map_option registry (returned (getImportPaths tools_shop (corePlugins tools_shop) fresh)) =
     Some [''/imports/plugins/core/index.js-tools/register.js''] \<and>
   getImportPath tools_shop (corePlugins tools_shop @ ''index.js-tools'' @ ''/client'') =
     ''/imports/plugins/core/index.js-tools/client'' \<and>
   returned (loadPlugins_imports tools_shop fresh) =
     Some ([''/imports/plugins/core-tools/client/index.js''],
           [''/imports/plugins/core/index.js-tools/register.js''])"
  by code_simp


subsection \<open>C5: a failed install is fatal\<close>

text \<open>
  Claim C5. If the install command of some plugin that is installed (it passed the filter
  and has a \<^verbatim>\<open>package.json\<close>) exits non-zero, the run ends the process with status 1; the
  last two things it did are the failing install command of such a plugin \<open>d\<close> and the
  error line naming \<open>d\<close>; it attempted no write, and every file is as it was before the run.
\<close>

theorem install_failure_is_fatal:
  assumes "failing_plugins e (corePlugins e) @ failing_plugins e (includedPlugins e) @
           failing_plugins e (customPlugins e) \<noteq> []"
  shows "\<exists>w' b d evs. loadPlugins e w = Exited 1 w' \<and>
           b \<in> set (tiers e) \<and> d \<in> set (failing_plugins e b) \<and>
           trace w' = trace w @ evs @ [ExecSync (install_command b d),
             LogError (''Failed to install npm dependencies for plugin: '' @ d)] \<and>
           filter is_write evs = [] \<and> files w' = files w"
proof -
  have "\<exists>w' b d evs. loadPlugins_imports e w = Exited 1 w' \<and>
           b \<in> set (tiers e) \<and> d \<in> set (failing_plugins e b) \<and>
           trace w' = trace w @ evs @ [ExecSync (install_command b d),
             LogError (''Failed to install npm dependencies for plugin: '' @ d)] \<and>
           filter is_write evs = [] \<and> files w' = files w"
  proof (cases "failing_plugins e (corePlugins e) = []")
    case False
    from getImportPaths_fails [OF False, of w] obtain w' d evs where
      "getImportPaths e (corePlugins e) w = Exited 1 w'" "d \<in> set (failing_plugins e (corePlugins e))"
      "files w' = files w"
      "trace w' = trace w @ evs @ [ExecSync (install_command (corePlugins e) d),
          LogError (''Failed to install npm dependencies for plugin: '' @ d)]"
      "filter is_write evs = []" by blast
    then show ?thesis
      by (intro exI [of _ w'] exI [of _ "corePlugins e"] exI [of _ d] exI [of _ evs])
        (simp add: loadPlugins_imports_def tiers_def)
  next
    case core_ok: True
    from getImportPaths_ok [OF core_ok, of w] obtain core w1 where
      r1: "getImportPaths e (corePlugins e) w = Return core w1" by blast
    from getImportPaths_quiet [OF r1] obtain evs1 where
      f1: "files w1 = files w" and t1: "trace w1 = trace w @ evs1" and q1: "filter is_write evs1 = []"
      by blast
    show ?thesis
    proof (cases "failing_plugins e (includedPlugins e) = []")
      case False
      from getImportPaths_fails [OF False, of w1] obtain w' d evs where
        "getImportPaths e (includedPlugins e) w1 = Exited 1 w'"
        "d \<in> set (failing_plugins e (includedPlugins e))"
        "files w' = files w1"
        "trace w' = trace w1 @ evs @ [ExecSync (install_command (includedPlugins e) d),
            LogError (''Failed to install npm dependencies for plugin: '' @ d)]"
        "filter is_write evs = []" by blast
      with r1 f1 t1 q1 show ?thesis
        by (intro exI [of _ w'] exI [of _ "includedPlugins e"] exI [of _ d] exI [of _ "evs1 @ evs"])
          (simp add: loadPlugins_imports_def tiers_def)
    next
      case included_ok: True
      from getImportPaths_ok [OF included_ok, of w1] obtain included w2 where
        r2: "getImportPaths e (includedPlugins e) w1 = Return included w2" by blast
      from getImportPaths_quiet [OF r2] obtain evs2 where
        f2: "files w2 = files w1" and t2: "trace w2 = trace w1 @ evs2" and q2: "filter is_write evs2 = []"
        by blast
      from assms core_ok included_ok have custom_fails: "failing_plugins e (customPlugins e) \<noteq> []"
        by simp
      from getImportPaths_fails [OF custom_fails, of w2] obtain w' d evs where
        "getImportPaths e (customPlugins e) w2 = Exited 1 w'"
        "d \<in> set (failing_plugins e (customPlugins e))"
        "files w' = files w2"
        "trace w' = trace w2 @ evs @ [ExecSync (install_command (customPlugins e) d),
            LogError (''Failed to install npm dependencies for plugin: '' @ d)]"
        "filter is_write evs = []" by blast
      with r1 f1 t1 q1 r2 f2 t2 q2 show ?thesis
        by (intro exI [of _ w'] exI [of _ "customPlugins e"] exI [of _ d] exI [of _ "evs1 @ evs2 @ evs"])
          (simp add: loadPlugins_imports_def tiers_def)
    qed
  qed
  then obtain w' b d evs where "loadPlugins_imports e w = Exited 1 w'"
    and rest: "b \<in> set (tiers e) \<and> d \<in> set (failing_plugins e b) \<and>
           trace w' = trace w @ evs @ [ExecSync (install_command b d),
             LogError (''Failed to install npm dependencies for plugin: '' @ d)] \<and>
           filter is_write evs = [] \<and> files w' = files w" by blast
  then have "loadPlugins e w = Exited 1 w'" by (simp add: loadPlugins_def)
  with rest show ?thesis by blast
qed

text \<open>
  Claim C5 in the shop when the install of \<^verbatim>\<open>A\<close> fails: the whole trace of the run is the
  announcement, the command and the error line.
\<close>

theorem install_failure_is_fatal_witness:
  "failing_plugins shop_install_fault (corePlugins shop_install_fault) @
   failing_plugins shop_install_fault (includedPlugins shop_install_fault) @
   failing_plugins shop_install_fault (customPlugins shop_install_fault) = [''A''] \<and>
   (\<exists>w' b d evs. loadPlugins shop_install_fault fresh = Exited 1 w' \<and>
      b \<in> set (tiers shop_install_fault) \<and> d \<in> set (failing_plugins shop_install_fault b) \<and>
      trace w' = trace fresh @ evs @ [ExecSync (install_command b d),
        LogError (''Failed to install npm dependencies for plugin: '' @ d)] \<and>
      filter is_write evs = [] \<and> files w' = files fresh) \<and>
   trace (world_of (loadPlugins shop_install_fault fresh)) =
     [LogInfo (''Installing dependencies for A...'' @ [CHR 0x0A]),
      ExecSync ''cd /app//imports/plugins/core/A && meteor npm i'',
      LogError ''Failed to install npm dependencies for plugin: A'']"
proof -
  have fails: "failing_plugins shop_install_fault (corePlugins shop_install_fault) @
      failing_plugins shop_install_fault (includedPlugins shop_install_fault) @
      failing_plugins shop_install_fault (customPlugins shop_install_fault) = [''A'']"
    by code_simp
  then have "failing_plugins shop_install_fault (corePlugins shop_install_fault) @
      failing_plugins shop_install_fault (includedPlugins shop_install_fault) @
      failing_plugins shop_install_fault (customPlugins shop_install_fault) \<noteq> []"
    by simp
  from install_failure_is_fatal [OF this, of fresh]
  have "\<exists>w' b d evs. loadPlugins shop_install_fault fresh = Exited 1 w' \<and>
      b \<in> set (tiers shop_install_fault) \<and> d \<in> set (failing_plugins shop_install_fault b) \<and>
      trace w' = trace fresh @ evs @ [ExecSync (install_command b d),
        LogError (''Failed to install npm dependencies for plugin: '' @ d)] \<and>
      filter is_write evs = [] \<and> files w' = files fresh" .
  moreover have "trace (world_of (loadPlugins shop_install_fault fresh)) =
     [LogInfo (''Installing dependencies for A...'' @ [CHR 0x0A]),
      ExecSync ''cd /app//imports/plugins/core/A && meteor npm i'',
      LogError ''Failed to install npm dependencies for plugin: A'']"
    by code_simp
  ultimately show ?thesis using fails by blast
qed


subsection \<open>C6: a failed write is fatal\<close>

text \<open>
  Claim C6, where the code departs from it. The claim reads: every write error while
  resetting or appending to a manifest file is fatal, and the emitted error identifies the
  destination file. Both kinds of failure end the process with status 1 at once, and a
  failed reset logs the file (\<open>write_failure_is_fatal\<close>). A failed append logs
  \<^verbatim>\<open>Failed to write to plugins file at\<close> followed by the import path it was writing, not by
  the file: in the shop, when the first append to \<^verbatim>\<open>/app//client/plugins.js\<close> throws, the
  run exits with status 1 and its last line names \<^verbatim>\<open>/imports/plugins/core/A/client\<close>.
\<close>

theorem append_failure_names_import_path:
  "exit_code (loadPlugins shop_client_fault fresh) = Some 1 \<and>
   clientFile shop_client_fault = ''/app//client/plugins.js'' \<and>
   trace (world_of (loadPlugins shop_client_fault fresh)) =
     [LogInfo (''Installing dependencies for A...'' @ [CHR 0x0A]),
      ExecSync ''cd /app//imports/plugins/core/A && meteor npm i'',
      WriteFile ''/app//client/plugins.js'' [],
      WriteFile ''/app//client/plugins.js'' importFileMessage,
      AppendFile ''/app//client/plugins.js'' (import_line ''/imports/plugins/core/A/client''),
      LogError ''Failed to write to plugins file at /imports/plugins/core/A/client'']"
  by code_simp


subsection \<open>C7: what the manifest files hold\<close>




subsection \<open>C8: running twice\<close>

text \<open>
  Claim C8. Two runs that return, on the same installation (same working directory, plugin
  tree, configuration and path library), leave the same bytes in the client file and the
  same bytes in the server file, from whatever worlds they started: what the files held,
  what ran before and which faults were pending have no influence. In particular a second
  run started in the world the first one left writes the files the first one wrote.
\<close>

theorem rerun_same_files:
  assumes "same_installation e1 e2"
    and "loadPlugins e1 w = Return u w'"
    and "loadPlugins e2 v = Return u' v'"
  shows "clientFile e2 = clientFile e1 \<and> serverFile e2 = serverFile e1 \<and>
         files v' (clientFile e2) = files w' (clientFile e1) \<and>
         files v' (serverFile e2) = files w' (serverFile e1)"
  using loadPlugins_Return [OF assms(2)] loadPlugins_Return [OF assms(3)]
    same_installation_manifests [OF assms(1)] clientFile_neq_serverFile [of e1]
  by simp

text \<open>
  Claim C8 in the shop: a run from \<open>fresh\<close>, then a second run in the world the first left.
\<close>

theorem rerun_same_files_witness:
  "same_installation shop shop \<and>
   loadPlugins shop fresh = Return () (world_of (loadPlugins shop fresh)) \<and>
   loadPlugins shop (world_of (loadPlugins shop fresh)) =
     Return () (world_of (loadPlugins shop (world_of (loadPlugins shop fresh)))) \<and>
   files (world_of (loadPlugins shop (world_of (loadPlugins shop fresh)))) (clientFile shop) =
     files (world_of (loadPlugins shop fresh)) (clientFile shop) \<and>
   files (world_of (loadPlugins shop (world_of (loadPlugins shop fresh)))) (serverFile shop) =
     files (world_of (loadPlugins shop fresh)) (serverFile shop)"
proof -
  have same: "same_installation shop shop"
    by (simp add: same_installation_def)
  have run1: "loadPlugins shop fresh = Return () (world_of (loadPlugins shop fresh))"
    by (rule returned_Some) code_simp
  have run2: "loadPlugins shop (world_of (loadPlugins shop fresh)) =
     Return () (world_of (loadPlugins shop (world_of (loadPlugins shop fresh))))"
    by (rule returned_Some) code_simp
  from rerun_same_files [OF same run1 run2] same run1 run2 show ?thesis by simp
qed


subsection \<open>C9: the other manifest file\<close>

text \<open>
  Claim C9. Once the manifests are computed, if writing the client file ends the process,
  the run ends there and the server file is what it was before the run; if the client file
  was written and writing the server file ends the process, the run ends there and the
  client file holds its complete text.
\<close>

theorem other_manifest_not_half_written:
  assumes "loadPlugins_imports e w = Return (ci, si) w1"
  shows "(generateImportsFile e (clientFile e) ci w1 = Exited code w2 \<longrightarrow>
            loadPlugins e w = Exited code w2 \<and>
            files w2 (serverFile e) = files w (serverFile e)) \<and>
         (generateImportsFile e (clientFile e) ci w1 = Return u w3 \<and>
          generateImportsFile e (serverFile e) si w3 = Exited code' w4 \<longrightarrow>
            loadPlugins e w = Exited code' w4 \<and>
            files w4 (clientFile e) = Some (importFileMessage @ concat (map import_line ci)))"
proof (intro conjI impI)
  assume c: "generateImportsFile e (clientFile e) ci w1 = Exited code w2"
  with assms show "loadPlugins e w = Exited code w2" by (simp add: loadPlugins_def)
  from generateImportsFile_other [of "serverFile e" "clientFile e" e ci w1] c
    clientFile_neq_serverFile [of e] loadPlugins_imports_Return(3) [OF assms]
  show "files w2 (serverFile e) = files w (serverFile e)" by simp
next
  assume "generateImportsFile e (clientFile e) ci w1 = Return u w3 \<and>
          generateImportsFile e (serverFile e) si w3 = Exited code' w4"
  then have c: "generateImportsFile e (clientFile e) ci w1 = Return u w3"
    and s: "generateImportsFile e (serverFile e) si w3 = Exited code' w4" by simp_all
  with assms show "loadPlugins e w = Exited code' w4" by (simp add: loadPlugins_def)
  from generateImportsFile_other [of "clientFile e" "serverFile e" e si w3] s
    clientFile_neq_serverFile [of e] generateImportsFile_Return [OF c]
  show "files w4 (clientFile e) = Some (importFileMessage @ concat (map import_line ci))"
    by (simp add: manifest_text_def)
qed

text \<open>
  Claim C9 in the shop with a failing disk: once with the fault in the client file, once
  with the fault in the server file.
\<close>

theorem other_manifest_not_half_written_witness:
  "(loadPlugins_imports shop_client_fault fresh =
      Return (shop_client_manifest, shop_server_manifest) (after_imports shop_client_fault) \<and>
    generateImportsFile shop_client_fault (clientFile shop_client_fault) shop_client_manifest
        (after_imports shop_client_fault) =
      Exited 1 (after_client shop_client_fault) \<and>
    loadPlugins shop_client_fault fresh = Exited 1 (after_client shop_client_fault) \<and>
    files (after_client shop_client_fault) (serverFile shop_client_fault) =
      files fresh (serverFile shop_client_fault)) \<and>
   (loadPlugins_imports shop_server_fault fresh =
      Return (shop_client_manifest, shop_server_manifest) (after_imports shop_server_fault) \<and>
    generateImportsFile shop_server_fault (clientFile shop_server_fault) shop_client_manifest
        (after_imports shop_server_fault) =
      Return () (after_client shop_server_fault) \<and>
    generateImportsFile shop_server_fault (serverFile shop_server_fault) shop_server_manifest
        (after_client shop_server_fault) =
      Exited 1 (after_server shop_server_fault) \<and>
    loadPlugins shop_server_fault fresh = Exited 1 (after_server shop_server_fault) \<and>
    files (after_server shop_server_fault) (clientFile shop_server_fault) =
      Some (importFileMessage @ concat (map import_line shop_client_manifest)))"
proof -
  have a1: "loadPlugins_imports shop_client_fault fresh =
      Return (shop_client_manifest, shop_server_manifest) (after_imports shop_client_fault)"
    unfolding after_imports_def by (rule returned_Some) code_simp
  have a2: "generateImportsFile shop_client_fault (clientFile shop_client_fault) shop_client_manifest
        (after_imports shop_client_fault) = Exited 1 (after_client shop_client_fault)"
    unfolding after_client_def by (rule exit_code_Some) code_simp
  have b1: "loadPlugins_imports shop_server_fault fresh =
      Return (shop_client_manifest, shop_server_manifest) (after_imports shop_server_fault)"
    unfolding after_imports_def by (rule returned_Some) code_simp
  have b2: "generateImportsFile shop_server_fault (clientFile shop_server_fault) shop_client_manifest
        (after_imports shop_server_fault) = Return () (after_client shop_server_fault)"
    unfolding after_client_def by (rule returned_Some) code_simp
  have b3: "generateImportsFile shop_server_fault (serverFile shop_server_fault) shop_server_manifest
        (after_client shop_server_fault) = Exited 1 (after_server shop_server_fault)"
    unfolding after_server_def by (rule exit_code_Some) code_simp
  from other_manifest_not_half_written [OF a1, of 1 "after_client shop_client_fault"]
    other_manifest_not_half_written [OF b1, of _ _ "()" "after_client shop_server_fault"
      1 "after_server shop_server_fault"]
    a1 a2 b1 b2 b3
  show ?thesis by simp
qed


subsection \<open>C10: no install for a rejected directory\<close>

text \<open>
  Claim C10. For a directory \<open>d\<close> whose name starts with a dot or is in
  \<^verbatim>\<open>disabledPlugins\<close>, and any of the three roots \<open>b\<close>, the run never executes the install
  command of \<open>b\<close> and \<open>d\<close>, whether or not the directory holds a \<^verbatim>\<open>package.json\<close> and
  however the run ends.
\<close>

theorem rejected_directory_never_installed:
  assumes "rejected e d" and "b \<in> set (tiers e)"
  shows "\<exists>evs. trace (world_of (loadPlugins e w)) = trace w @ evs \<and>
           ExecSync (install_command b d) \<notin> set evs"
proof -
  from loadPlugins_runs_only [of e w] obtain evs where
    t: "trace (world_of (loadPlugins e w)) = trace w @ evs" and
    i: "set (installs evs) \<subseteq> allowed_installs e"
    unfolding runs_only_def by blast
  have "ExecSync (install_command b d) \<notin> set evs"
  proof
    assume "ExecSync (install_command b d) \<in> set evs"
    then have "install_command b d \<in> set (installs evs)"
      by (induction evs rule: installs.induct) auto
    with i have "install_command b d \<in> allowed_installs e" by blast
    then obtain b' d' where b': "b' \<in> set (tiers e)" and d': "d' \<in> set (pluginDirs e b')"
      and eq: "install_command b d = install_command b' d'"
      by (auto simp: allowed_installs_def tiers_def)
    from install_command_tier_inj [OF assms(2) b' eq] d' have "d \<in> set (pluginDirs e b')" by simp
    with assms(1) show False by (simp add: pluginDirs_def)
  qed
  with t show ?thesis by blast
qed

text \<open>
  Claim C10 in the shop: the disabled \<^verbatim>\<open>B\<close> and the hidden \<^verbatim>\<open>.hidden\<close> both hold a
  \<^verbatim>\<open>package.json\<close>, and neither install runs.
\<close>

theorem rejected_directory_never_installed_witness:
  "rejected shop ''B'' \<and> rejected shop ''.hidden'' \<and> corePlugins shop \<in> set (tiers shop) \<and>
   exists shop (corePlugins shop @ ''B'' @ ''/package.json'') \<and>
   exists shop (corePlugins shop @ ''.hidden'' @ ''/package.json'') \<and>
   (\<exists>evs. trace (world_of (loadPlugins shop fresh)) = trace fresh @ evs \<and>
      ExecSync (install_command (corePlugins shop) ''B'') \<notin> set evs) \<and>
   (\<exists>evs. trace (world_of (loadPlugins shop fresh)) = trace fresh @ evs \<and>
      ExecSync (install_command (corePlugins shop) ''.hidden'') \<notin> set evs)"
proof -
  have b: "rejected shop ''B''" and h: "rejected shop ''.hidden''"
    and t: "corePlugins shop \<in> set (tiers shop)"
    and pb: "exists shop (corePlugins shop @ ''B'' @ ''/package.json'')"
    and ph: "exists shop (corePlugins shop @ ''.hidden'' @ ''/package.json'')"
    by code_simp+
  from rejected_directory_never_installed [OF b t, of fresh]
    rejected_directory_never_installed [OF h t, of fresh] b h t pb ph
  show ?thesis by blast
qed

end
